theory Spec2Isabelle
  imports Complex_Main
begin

section \<open>JavaScript strings\<close>

text \<open>
  Strings are character lists. \<open>js_split sep s\<close> is \<^verbatim>\<open>s.split(sep)\<close> for a
  one-character separator: every occurrence of the separator ends a piece, so adjacent,
  leading and trailing separators give empty pieces, and the empty string gives one empty
  piece. \<open>js_join sep ws\<close> is \<^verbatim>\<open>ws.join(sep)\<close>.
\<close>

fun js_split :: "char \<Rightarrow> string \<Rightarrow> string list" where
  "js_split sep [] = [[]]"
| "js_split sep (c # cs) =
     (if c = sep then [] # js_split sep cs
      else (case js_split sep cs of [] \<Rightarrow> [[c]] | w # ws \<Rightarrow> (c # w) # ws))"

fun js_join :: "string \<Rightarrow> string list \<Rightarrow> string" where
  "js_join sep [] = []"
| "js_join sep [w] = w"
| "js_join sep (w # v # ws) = w @ sep @ js_join sep (v # ws)"

text \<open>
  A template literal prints an integer-valued number in decimal. \<^verbatim>\<open>Math.round(v)\<close> is
  the floor of \<open>v + 1/2\<close>.
\<close>

fun digits :: "nat \<Rightarrow> string" where
  "digits n = (if n < 10 then [''0123456789'' ! n] else digits (n div 10) @ [''0123456789'' ! (n mod 10)])"

definition show_int :: "int \<Rightarrow> string" where
  "show_int i = (if i < 0 then ''-'' @ digits (nat (- i)) else digits (nat i))"

definition Math_round :: "real \<Rightarrow> int" where
  "Math_round v = \<lfloor>v + 1 / 2\<rfloor>"

section \<open>The canvas as a trace of calls\<close>

text \<open>
  JavaScript numbers are modelled as reals: rounding is abstracted away, and the one place
  where an infinity can arise (a division by a zero image dimension) is written out.
  A canvas gradient object is the value it has when it is assigned to \<^verbatim>\<open>fillStyle\<close>:
  its line or circles and the colour stops in the order they were added.
\<close>

record html_image =
  width :: nat
  height :: nat

datatype fill_style =
  Color string
| LinearGradient real real real real "(real \<times> string) list"
| RadialGradient real real real real real real "(real \<times> string) list"

datatype canvas_call =
  SetFillStyle fill_style
| SetStrokeStyle string
| SetLineWidth real
| SetFont string
| SetTextBaseline string
| SetShadowColor string
| SetShadowBlur real
| SetShadowOffsetX real
| SetShadowOffsetY real
| SetFilter string
| Save
| Restore
| BeginPath
| MoveTo real real
| LineTo real real
| QuadraticCurveTo real real real real
| ClosePath
| Fill
| Stroke
| FillRect real real real real
| FillText string real real
| DrawImage html_image real real real real

section \<open>wrapText\<close>

text \<open>
  One iteration of the loop of \<^verbatim>\<open>wrapText\<close> on its three variables: the current
  line, the cursor \<^verbatim>\<open>drawY\<close> and the calls made so far. \<open>measureText\<close> is
  \<^verbatim>\<open>ctx.measureText(_).width\<close> under the font current at the call. A string is
  truthy when it is not empty. The \<^verbatim>\<open>for ... of\<close> loop is the fold of the step over
  the words.
\<close>

definition wrap_step ::
  "(string \<Rightarrow> real) \<Rightarrow> real \<Rightarrow> real \<Rightarrow> real \<Rightarrow> string \<Rightarrow>
   string \<times> real \<times> canvas_call list \<Rightarrow> string \<times> real \<times> canvas_call list" where
  "wrap_step measureText x maxWidth lineHeight word =
     (\<lambda>(line, drawY, out).
        let testLine = (if line \<noteq> [] then line @ '' '' @ word else word) in
        if measureText testLine > maxWidth \<and> line \<noteq> []
        then (word, drawY + lineHeight, out @ [FillText line x drawY])
        else (testLine, drawY, out))"

definition wrapText ::
  "(string \<Rightarrow> real) \<Rightarrow> string \<Rightarrow> real \<Rightarrow> real \<Rightarrow> real \<Rightarrow> real \<Rightarrow> canvas_call list \<times> real" where
  "wrapText measureText text x y maxWidth lineHeight =
     (case fold (wrap_step measureText x maxWidth lineHeight) (js_split CHR '' '' text) ([], y, []) of
        (line, drawY, out) \<Rightarrow>
          if line \<noteq> [] then (out @ [FillText line x drawY], drawY + lineHeight)
          else (out, drawY))"

text \<open>
  \<^verbatim>\<open>wrapText\<close> after its first statement: the loop and the final flush on a given
  list of words.
\<close>

definition wrap_words ::
  "(string \<Rightarrow> real) \<Rightarrow> string list \<Rightarrow> real \<Rightarrow> real \<Rightarrow> real \<Rightarrow> real \<Rightarrow> canvas_call list \<times> real" where
  "wrap_words measureText words x y maxWidth lineHeight =
     (case fold (wrap_step measureText x maxWidth lineHeight) words ([], y, []) of
        (line, drawY, out) \<Rightarrow>
          if line \<noteq> [] then (out @ [FillText line x drawY], drawY + lineHeight)
          else (out, drawY))"

text \<open>
  The specification of the layout, in its own words: the greedy-fit groups of a word list
  (a word joins the current group unless the group is non-empty and the group with the
  word, joined by single spaces, measures more than \<open>maxWidth\<close>; what is left at the end
  is the last group). \<open>place_lines\<close> draws a list of lines from a start position, each one
  line height below the one before, and \<open>line_texts\<close> reads the texts of the
  \<^verbatim>\<open>fillText\<close> calls off a trace.
\<close>

fun greedy_groups ::
  "(string \<Rightarrow> real) \<Rightarrow> real \<Rightarrow> string list \<Rightarrow> string list \<Rightarrow> string list list" where
  "greedy_groups measureFn maxWidth cur [] = (if cur = [] then [] else [cur])"
| "greedy_groups measureFn maxWidth cur (w # ws) =
     (if cur \<noteq> [] \<and> measureFn (js_join '' '' (cur @ [w])) > maxWidth
      then cur # greedy_groups measureFn maxWidth [w] ws
      else greedy_groups measureFn maxWidth (cur @ [w]) ws)"

fun place_lines :: "real \<Rightarrow> real \<Rightarrow> real \<Rightarrow> string list \<Rightarrow> canvas_call list" where
  "place_lines x y lineHeight [] = []"
| "place_lines x y lineHeight (l # ls) =
     FillText l x y # place_lines x (y + lineHeight) lineHeight ls"

fun line_texts :: "canvas_call list \<Rightarrow> string list" where
  "line_texts [] = []"
| "line_texts (FillText t x y # cs) = t # line_texts cs"
| "line_texts (c # cs) = line_texts cs"

section \<open>The scene catalog\<close>

record gradient_stop =
  stop_color :: string
  stop_position :: real

record overlay =
  ov_x :: real
  ov_y :: real
  ov_radius :: real
  ov_color :: string

record scene_config =
  label :: string
  gradientStops :: "gradient_stop list"
  overlays :: "overlay list option"

datatype scene_key = studio | neon | sunset | slate

fun sceneBackgrounds :: "scene_key \<Rightarrow> scene_config" where
  "sceneBackgrounds studio = \<lparr>
     label = ''Soft Studio'',
     gradientStops = [
       \<lparr>stop_color = ''#f8fafc'', stop_position = 0\<rparr>,
       \<lparr>stop_color = ''#e2e8f0'', stop_position = 0.45\<rparr>,
       \<lparr>stop_color = ''#eef2ff'', stop_position = 1\<rparr>],
     overlays = Some [
       \<lparr>ov_x = 0.25, ov_y = 0.25, ov_radius = 0.55, ov_color = ''rgba(99, 102, 241, 0.18)''\<rparr>]\<rparr>"
| "sceneBackgrounds neon = \<lparr>
     label = ''Neon Pop'',
     gradientStops = [
       \<lparr>stop_color = ''#0f172a'', stop_position = 0\<rparr>,
       \<lparr>stop_color = ''#1e293b'', stop_position = 0.45\<rparr>,
       \<lparr>stop_color = ''#4c1d95'', stop_position = 1\<rparr>],
     overlays = Some [
       \<lparr>ov_x = 0.75, ov_y = 0.25, ov_radius = 0.5, ov_color = ''rgba(16, 185, 129, 0.32)''\<rparr>,
       \<lparr>ov_x = 0.2, ov_y = 0.8, ov_radius = 0.65, ov_color = ''rgba(59, 130, 246, 0.25)''\<rparr>]\<rparr>"
| "sceneBackgrounds sunset = \<lparr>
     label = ''Sunset Glow'',
     gradientStops = [
       \<lparr>stop_color = ''#fef3c7'', stop_position = 0\<rparr>,
       \<lparr>stop_color = ''#f97316'', stop_position = 0.55\<rparr>,
       \<lparr>stop_color = ''#ef4444'', stop_position = 1\<rparr>],
     overlays = Some [
       \<lparr>ov_x = 0.25, ov_y = 0.25, ov_radius = 0.6, ov_color = ''rgba(254, 240, 138, 0.4)''\<rparr>]\<rparr>"
| "sceneBackgrounds slate = \<lparr>
     label = ''Graphite'',
     gradientStops = [
       \<lparr>stop_color = ''#1f2937'', stop_position = 0\<rparr>,
       \<lparr>stop_color = ''#111827'', stop_position = 1\<rparr>],
     overlays = Some [
       \<lparr>ov_x = 0.2, ov_y = 0.85, ov_radius = 0.65, ov_color = ''rgba(148, 163, 184, 0.28)''\<rparr>]\<rparr>"

definition downloadWidth :: real where
  "downloadWidth = 1600"

definition downloadHeight :: real where
  "downloadHeight = 1200"

section \<open>The page state\<close>

datatype background_mode = Gradient | Solid | Scene

record page_state =
  imageSrc :: "string option"
  imageName :: string
  brightness :: real
  contrast :: real
  saturation :: real
  blur :: real
  backgroundMode :: background_mode
  solidColor :: string
  gradientStart :: string
  gradientEnd :: string
  sceneKey :: scene_key
  tagline :: string
  description :: string
  ctaText :: string
  badgeText :: string
  copySuccess :: bool
  exporting :: bool
  downloadError :: "string option"

text \<open>
  What the handlers ask of the browser: the width of a text under a font
  (\<^verbatim>\<open>ctx.measureText\<close>), \<^verbatim>\<open>String.prototype.toUpperCase\<close>, the text of a
  number in a template literal, the outcome of loading an image from a URL (\<open>None\<close> when
  \<^verbatim>\<open>onerror\<close> fires), whether the canvas gives a 2D context, and whether
  \<^verbatim>\<open>toBlob\<close> delivers a blob.
\<close>

record browser =
  measureText :: "string \<Rightarrow> string \<Rightarrow> real"
  toUpperCase :: "string \<Rightarrow> string"
  numberToString :: "real \<Rightarrow> string"
  decodeImage :: "string \<Rightarrow> html_image option"
  getContext :: bool
  toBlob :: bool

text \<open>The state of a freshly mounted page: the arguments of the \<^verbatim>\<open>useState\<close> calls.\<close>

definition initial_state :: page_state where
  "initial_state = \<lparr>
     imageSrc = None,
     imageName = ''product-shot.png'',
     brightness = 1.12,
     contrast = 1.08,
     saturation = 1.18,
     blur = 0,
     backgroundMode = Gradient,
     solidColor = ''#f8fafc'',
     gradientStart = ''#eef2ff'',
     gradientEnd = ''#e0f2fe'',
     sceneKey = studio,
     tagline = ''New Arrival'',
     description = ''Premium quality product crafted for everyday excellence.'',
     ctaText = ''Shop Now'',
     badgeText = ''20% Off'',
     copySuccess = False,
     exporting = False,
     downloadError = None\<rparr>"

text \<open>
  A browser for the worked examples: every character is ten units wide in every font,
  upper-casing maps the letters a to z, a number prints as its integer part, every URL
  loads the given image, and the canvas and the encoder work.
\<close>

definition upper_char :: "char \<Rightarrow> char" where
  "upper_char c =
     (case map_of (zip ''abcdefghijklmnopqrstuvwxyz'' ''ABCDEFGHIJKLMNOPQRSTUVWXYZ'') c of
        None \<Rightarrow> c
      | Some u \<Rightarrow> u)"

definition example_browser :: "html_image \<Rightarrow> browser" where
  "example_browser img = \<lparr>
     measureText = (\<lambda>font t. 10 * real (length t)),
     toUpperCase = map upper_char,
     numberToString = (\<lambda>v. show_int \<lfloor>v\<rfloor>),
     decodeImage = (\<lambda>src. Some img),
     getContext = True,
     toBlob = True\<rparr>"

section \<open>The live preview\<close>

definition filterValue :: "browser \<Rightarrow> page_state \<Rightarrow> string" where
  "filterValue env s =
     ''brightness('' @ numberToString env (brightness s) @ '') contrast(''
       @ numberToString env (contrast s) @ '') saturate(''
       @ numberToString env (saturation s) @ '') blur(''
       @ numberToString env (blur s) @ ''px)''"

definition percent :: "real \<Rightarrow> string" where
  "percent v = show_int (Math_round (v * 100)) @ ''%''"

text \<open>
  The gradient and the overlays of a scene as CSS text. \<^verbatim>\<open>backgroundStyle\<close> and
  \<^verbatim>\<open>previewBackground\<close> build them with the same expressions.
\<close>

definition scene_gradient :: "scene_config \<Rightarrow> string" where
  "scene_gradient scene =
     ''linear-gradient(135deg, ''
       @ js_join '', '' (map (\<lambda>stop. stop_color stop @ '' ''
            @ show_int (Math_round (stop_position stop * 100)) @ ''%'') (gradientStops scene))
       @ '')''"

definition scene_overlays :: "scene_config \<Rightarrow> string list" where
  "scene_overlays scene =
     (case overlays scene of
        None \<Rightarrow> []
      | Some ovs \<Rightarrow>
          map (\<lambda>ov. ''radial-gradient(circle at '' @ percent (ov_x ov) @ '' '' @ percent (ov_y ov)
                 @ '', '' @ ov_color ov @ '' 0%, rgba(255, 255, 255, 0) ''
                 @ show_int (Math_round (ov_radius ov * 100)) @ ''%)'') ovs)"

datatype style = Background string | BackgroundImage string

definition backgroundStyle :: "page_state \<Rightarrow> style" where
  "backgroundStyle s =
     (if backgroundMode s = Solid then Background (solidColor s)
      else if backgroundMode s = Scene then
        (let scene = sceneBackgrounds (sceneKey s);
             layers = scene_overlays scene @ [scene_gradient scene]
         in BackgroundImage (js_join '','' layers))
      else Background (''linear-gradient(130deg, '' @ gradientStart s @ '' 0%, ''
             @ gradientEnd s @ '' 100%)''))"

definition previewBackground :: "page_state \<Rightarrow> string" where
  "previewBackground s =
     (if backgroundMode s = Solid then solidColor s
      else if backgroundMode s = Scene then
        (let scene = sceneBackgrounds (sceneKey s)
         in js_join '','' (scene_overlays scene @ [scene_gradient scene]))
      else ''linear-gradient(130deg, '' @ gradientStart s @ '', '' @ gradientEnd s @ '')'')"

text \<open>
  The value of \<^verbatim>\<open>previewBackground\<close> read as CSS: a list of background layers in the
  order they are listed, each a colour, a linear gradient (angle in degrees, colour stops
  with an optional percentage) or a circular radial gradient (centre in percent, colour
  stops). \<open>css_text\<close> prints a layer back.
\<close>

datatype css_image =
  CssColor string
| CssLinearGradient int "(string \<times> int option) list"
| CssRadialGradient int int "(string \<times> int option) list"

fun css_stop_text :: "string \<times> int option \<Rightarrow> string" where
  "css_stop_text (c, None) = c"
| "css_stop_text (c, Some p) = c @ '' '' @ show_int p @ ''%''"

fun css_text :: "css_image \<Rightarrow> string" where
  "css_text (CssColor c) = c"
| "css_text (CssLinearGradient angle stops) =
     ''linear-gradient('' @ show_int angle @ ''deg, ''
       @ js_join '', '' (map css_stop_text stops) @ '')''"
| "css_text (CssRadialGradient px py stops) =
     ''radial-gradient(circle at '' @ show_int px @ ''% '' @ show_int py @ ''%, ''
       @ js_join '', '' (map css_stop_text stops) @ '')''"

definition overlay_layer :: "overlay \<Rightarrow> css_image" where
  "overlay_layer ov =
     CssRadialGradient (Math_round (ov_x ov * 100)) (Math_round (ov_y ov * 100))
       [(ov_color ov, Some 0), (''rgba(255, 255, 255, 0)'', Some (Math_round (ov_radius ov * 100)))]"

definition previewLayers :: "page_state \<Rightarrow> css_image list" where
  "previewLayers s =
     (if backgroundMode s = Solid then [CssColor (solidColor s)]
      else if backgroundMode s = Scene then
        (let scene = sceneBackgrounds (sceneKey s)
         in map overlay_layer (case overlays scene of None \<Rightarrow> [] | Some ovs \<Rightarrow> ovs)
            @ [CssLinearGradient 135
                 (map (\<lambda>stop. (stop_color stop, Some (Math_round (stop_position stop * 100))))
                    (gradientStops scene))])
      else [CssLinearGradient 130 [(gradientStart s, None), (gradientEnd s, None)]])"

text \<open>
  CSS stacks the layers of a background with the first one listed closest to the viewer:
  the layers from the bottom up are the list reversed.
\<close>

definition css_paint_order :: "css_image list \<Rightarrow> css_image list" where
  "css_paint_order layers = rev layers"

fun css_angle :: "css_image \<Rightarrow> int option" where
  "css_angle (CssLinearGradient angle stops) = Some angle"
| "css_angle c = None"

fun css_colors :: "css_image \<Rightarrow> string list" where
  "css_colors (CssColor c) = [c]"
| "css_colors (CssLinearGradient angle stops) = map fst stops"
| "css_colors (CssRadialGradient px py stops) = map fst stops"

section \<open>The export\<close>

definition drawRoundedRect :: "real \<Rightarrow> real \<Rightarrow> real \<Rightarrow> real \<Rightarrow> real \<Rightarrow> canvas_call list" where
  "drawRoundedRect x y w h r =
     [BeginPath,
      MoveTo (x + r) y,
      LineTo (x + w - r) y,
      QuadraticCurveTo (x + w) y (x + w) (y + r),
      LineTo (x + w) (y + h - r),
      QuadraticCurveTo (x + w) (y + h) (x + w - r) (y + h),
      LineTo (x + r) (y + h),
      QuadraticCurveTo x (y + h) x (y + h - r),
      LineTo x (y + r),
      QuadraticCurveTo x y (x + r) y,
      ClosePath]"

text \<open>
  The backdrop, lines 208 to 239 of \<^verbatim>\<open>handleDownload\<close>. The canvas has the export
  size. The colours are those of the catalog and of the colour inputs, which
  \<^verbatim>\<open>addColorStop\<close> accepts.
\<close>

definition drawBackdrop :: "page_state \<Rightarrow> canvas_call list" where
  "drawBackdrop s =
     (if backgroundMode s = Solid then
        [SetFillStyle (Color (solidColor s)), FillRect 0 0 downloadWidth downloadHeight]
      else if backgroundMode s = Scene then
        (let scene = sceneBackgrounds (sceneKey s) in
         [SetFillStyle (LinearGradient 0 0 downloadWidth downloadHeight
            (map (\<lambda>stop. (stop_position stop, stop_color stop)) (gradientStops scene))),
          FillRect 0 0 downloadWidth downloadHeight]
         @ concat (map (\<lambda>ov.
             [SetFillStyle (RadialGradient
                (downloadWidth * ov_x ov) (downloadHeight * ov_y ov) 0
                (downloadWidth * ov_x ov) (downloadHeight * ov_y ov)
                (max downloadWidth downloadHeight * ov_radius ov)
                [(0, ov_color ov), (1, ''rgba(255,255,255,0)'')]),
              FillRect 0 0 downloadWidth downloadHeight])
             (case overlays scene of None \<Rightarrow> [] | Some ovs \<Rightarrow> ovs)))
      else
        [SetFillStyle (LinearGradient 0 0 downloadWidth downloadHeight
           [(0, gradientStart s), (1, gradientEnd s)]),
         FillRect 0 0 downloadWidth downloadHeight])"

definition drawCard :: "canvas_call list" where
  "drawCard =
     [Save, SetFillStyle (Color ''rgba(255, 255, 255, 0.18)'')]
     @ drawRoundedRect 80 80 (downloadWidth - 160) (downloadHeight - 160) 48
     @ [Fill, Restore]"

definition padding :: real where
  "padding = 140"

definition textColumnWidth :: real where
  "textColumnWidth = downloadWidth * 0.38"

text \<open>
  Each block of copy takes the cursor and gives its calls and the cursor after it. A
  string is drawn when it is not empty.
\<close>

definition drawBadge :: "browser \<Rightarrow> page_state \<Rightarrow> real \<Rightarrow> canvas_call list \<times> real" where
  \<open>drawBadge env s cursorY =
     (if badgeText s \<noteq> [] then
        (let badgeX = padding;
             badgeY = cursorY;
             badgePaddingX = 28;
             badgeHeight = 58;
             badgeMetrics = measureText env ''600 28px "Inter"'' (toUpperCase env (badgeText s));
             badgeWidth = badgeMetrics + badgePaddingX * 2
         in ([SetFont ''600 28px "Inter"'',
              Save,
              SetFillStyle (Color ''rgba(79, 70, 229, 0.12)''),
              SetStrokeStyle ''rgba(79, 70, 229, 0.35)'',
              SetLineWidth 2]
             @ drawRoundedRect badgeX badgeY badgeWidth badgeHeight 32
             @ [Fill,
                Stroke,
                SetFillStyle (Color ''#4338ca''),
                SetTextBaseline ''middle'',
                FillText (toUpperCase env (badgeText s)) (badgeX + badgePaddingX)
                  (badgeY + badgeHeight / 2),
                Restore],
             badgeY + badgeHeight + 48))
      else ([], cursorY))\<close>

definition drawTagline :: "browser \<Rightarrow> page_state \<Rightarrow> real \<Rightarrow> canvas_call list \<times> real" where
  \<open>drawTagline env s cursorY =
     (if tagline s \<noteq> [] then
        (case wrapText (measureText env ''700 78px "Inter"'') (tagline s) padding cursorY
                textColumnWidth 84 of
           (calls, drawY) \<Rightarrow>
             ([SetFillStyle (Color ''#0f172a''), SetFont ''700 78px "Inter"'', SetTextBaseline ''top'']
              @ calls,
              drawY + 36))
      else ([], cursorY))\<close>

definition drawDescription :: "browser \<Rightarrow> page_state \<Rightarrow> real \<Rightarrow> canvas_call list \<times> real" where
  \<open>drawDescription env s cursorY =
     (if description s \<noteq> [] then
        (case wrapText (measureText env ''400 32px "Inter"'') (description s) padding cursorY
                textColumnWidth 46 of
           (calls, drawY) \<Rightarrow>
             ([SetFillStyle (Color ''rgba(15, 23, 42, 0.75)''), SetFont ''400 32px "Inter"'']
              @ calls,
              drawY + 40))
      else ([], cursorY))\<close>

definition drawCta :: "browser \<Rightarrow> page_state \<Rightarrow> real \<Rightarrow> canvas_call list" where
  \<open>drawCta env s cursorY =
     (if ctaText s \<noteq> [] then
        (let buttonHeight = 76;
             metrics = measureText env ''600 32px "Inter"'' (ctaText s);
             buttonWidth = max (metrics + 80) 260
         in [SetFont ''600 32px "Inter"'',
             Save,
             SetFillStyle (Color ''#6366f1'')]
            @ drawRoundedRect padding cursorY buttonWidth buttonHeight (buttonHeight / 2)
            @ [Fill,
               SetFillStyle (Color ''#ffffff''),
               SetTextBaseline ''middle'',
               FillText (ctaText s) (padding + buttonWidth / 2 - metrics / 2)
                 (cursorY + buttonHeight / 2 + 4),
               Restore])
      else [])\<close>

text \<open>
  The placement of the image, lines 301 to 307. The sides of an image are natural numbers.
  The two available lengths are positive, so a quotient by a zero side is
  \<^verbatim>\<open>Infinity\<close>, written \<open>None\<close>, and \<^verbatim>\<open>Math.min\<close> passes over it.
\<close>

definition availableImageWidth :: real where
  "availableImageWidth = downloadWidth - textColumnWidth - padding * 2"

definition availableImageHeight :: real where
  "availableImageHeight = downloadHeight - padding * 2"

definition js_divide :: "real \<Rightarrow> nat \<Rightarrow> real option" where
  "js_divide a d = (if d = 0 then None else Some (a / real d))"

fun Math_min :: "real option \<Rightarrow> real option \<Rightarrow> real \<Rightarrow> real" where
  "Math_min None None c = c"
| "Math_min (Some a) None c = min a c"
| "Math_min None (Some b) c = min b c"
| "Math_min (Some a) (Some b) c = min (min a b) c"

definition scale :: "html_image \<Rightarrow> real" where
  "scale baseImage =
     Math_min (js_divide availableImageWidth (width baseImage))
       (js_divide availableImageHeight (height baseImage)) 1.2"

definition drawWidth :: "html_image \<Rightarrow> real" where
  "drawWidth baseImage = real (width baseImage) * scale baseImage"

definition drawHeight :: "html_image \<Rightarrow> real" where
  "drawHeight baseImage = real (height baseImage) * scale baseImage"

definition imageX :: "html_image \<Rightarrow> real" where
  "imageX baseImage = downloadWidth - padding - drawWidth baseImage"

definition imageY :: "html_image \<Rightarrow> real" where
  "imageY baseImage = padding + (availableImageHeight - drawHeight baseImage) / 2"

definition exportFilter :: "browser \<Rightarrow> page_state \<Rightarrow> string" where
  "exportFilter env s =
     ''brightness('' @ numberToString env (brightness s) @ '') contrast(''
       @ numberToString env (contrast s) @ '') saturate(''
       @ numberToString env (saturation s) @ '') blur(''
       @ numberToString env (blur s) @ ''px)''"

definition drawProduct :: "browser \<Rightarrow> page_state \<Rightarrow> html_image \<Rightarrow> canvas_call list" where
  "drawProduct env s baseImage =
     [Save,
      SetShadowColor ''rgba(15, 23, 42, 0.22)'',
      SetShadowBlur 55,
      SetShadowOffsetX 24,
      SetShadowOffsetY 32,
      SetFilter (exportFilter env s),
      DrawImage baseImage (imageX baseImage) (imageY baseImage)
        (drawWidth baseImage) (drawHeight baseImage),
      Restore]"

text \<open>All the drawing of one export, in the order of the calls.\<close>

definition compose :: "browser \<Rightarrow> page_state \<Rightarrow> html_image \<Rightarrow> canvas_call list" where
  "compose env s baseImage =
     (case drawBadge env s (padding + 20) of (badge, y1) \<Rightarrow>
      case drawTagline env s y1 of (headline, y2) \<Rightarrow>
      case drawDescription env s y2 of (body, y3) \<Rightarrow>
        drawBackdrop s @ drawCard @ badge @ headline @ body @ drawCta env s y3
        @ drawProduct env s baseImage)"

text \<open>
  \<^verbatim>\<open>handleDownload\<close>: the state after the handler and what it did to the document,
  in order. A rejected image load is not an \<^verbatim>\<open>Error\<close>, so the handler reports the
  fallback message; the two \<^verbatim>\<open>throw\<close> statements carry their own. The
  \<^verbatim>\<open>finally\<close> block resets \<^verbatim>\<open>exporting\<close> on every path that set it.
  The canvas calls themselves are taken not to throw.
\<close>

datatype dom_event =
  CreateCanvas real real
| Canvas canvas_call
| ToBlob string real
| Download string

definition handleDownload :: "browser \<Rightarrow> page_state \<Rightarrow> page_state \<times> dom_event list" where
  "handleDownload env s =
     (case imageSrc s of
        None \<Rightarrow> (s\<lparr>downloadError := Some ''Upload an image first.''\<rparr>, [])
      | Some src \<Rightarrow>
          if src = [] then (s\<lparr>downloadError := Some ''Upload an image first.''\<rparr>, [])
          else
            (case decodeImage env src of
               None \<Rightarrow>
                 (s\<lparr>downloadError := Some ''Failed to export image.'', exporting := False\<rparr>, [])
             | Some baseImage \<Rightarrow>
                 if \<not> getContext env then
                   (s\<lparr>downloadError := Some ''Could not get canvas context.'', exporting := False\<rparr>,
                    [CreateCanvas downloadWidth downloadHeight])
                 else if \<not> toBlob env then
                   (s\<lparr>downloadError := Some ''Unable to export image.'', exporting := False\<rparr>,
                    CreateCanvas downloadWidth downloadHeight
                      # map Canvas (compose env s baseImage) @ [ToBlob ''image/png'' 0.95])
                 else
                   (s\<lparr>downloadError := None, exporting := False\<rparr>,
                    CreateCanvas downloadWidth downloadHeight
                      # map Canvas (compose env s baseImage)
                      @ [ToBlob ''image/png'' 0.95,
                         Download (if imageName s \<noteq> [] then imageName s else ''product-shot.png'')])))"

text \<open>
  Reading a trace: the fill styles with which \<^verbatim>\<open>fillRect\<close> paints, in paint order
  (the first argument is the fill style current before the trace), the colours of a fill
  style in stop order, and the line of a linear gradient.
\<close>

fun rect_fills :: "fill_style \<Rightarrow> canvas_call list \<Rightarrow> fill_style list" where
  "rect_fills cur [] = []"
| "rect_fills cur (SetFillStyle f # cs) = rect_fills f cs"
| "rect_fills cur (FillRect x y w h # cs) = cur # rect_fills cur cs"
| "rect_fills cur (c # cs) = rect_fills cur cs"

fun fill_colors :: "fill_style \<Rightarrow> string list" where
  "fill_colors (Color c) = [c]"
| "fill_colors (LinearGradient x0 y0 x1 y1 stops) = map snd stops"
| "fill_colors (RadialGradient x0 y0 r0 x1 y1 r1 stops) = map snd stops"

fun gradient_line :: "fill_style \<Rightarrow> (real \<times> real \<times> real \<times> real) option" where
  "gradient_line (LinearGradient x0 y0 x1 y1 stops) = Some (x0, y0, x1, y1)"
| "gradient_line f = None"

definition exportFills :: "page_state \<Rightarrow> fill_style list" where
  "exportFills s = rect_fills (Color ''#000000'') (drawBackdrop s)"

text \<open>
  An overlay read off either side in the same units: the centre in percent of the width
  and of the height, the colour at the centre, and the radius at which it has faded to
  transparent white, in percent (of the gradient ray in the preview, of the longer side of
  the canvas in the export). A layer or fill of another shape is no overlay.
\<close>

fun css_overlay :: "css_image \<Rightarrow> (int \<times> int \<times> string \<times> int) option" where
  "css_overlay (CssRadialGradient px py [(c, Some p), (t, Some q)]) =
     (if p = 0 \<and> t = ''rgba(255, 255, 255, 0)'' then Some (px, py, c, q) else None)"
| "css_overlay layer = None"

fun fill_overlay :: "fill_style \<Rightarrow> (int \<times> int \<times> string \<times> int) option" where
  "fill_overlay (RadialGradient x0 y0 r0 x1 y1 r1 [(o0, c0), (o1, c1)]) =
     (if r0 = 0 \<and> x0 = x1 \<and> y0 = y1 \<and> o0 = 0 \<and> o1 = 1 \<and> c1 = ''rgba(255,255,255,0)''
      then Some (Math_round (x1 / downloadWidth * 100), Math_round (y1 / downloadHeight * 100), c0,
                 Math_round (r1 / max downloadWidth downloadHeight * 100))
      else None)"
| "fill_overlay f = None"

section \<open>Strings: splitting and joining\<close>

lemma js_split_not_Nil: "js_split sep s \<noteq> []"
  by (induction s) (auto split: list.splits)

lemma js_join_Cons: "ws \<noteq> [] \<Longrightarrow> js_join sep (w # ws) = w @ sep @ js_join sep ws"
  by (cases ws) auto

lemma js_join_Cons_Cons: "js_join sep ((c # a) # list) = c # js_join sep (a # list)"
  by (cases list) auto

lemma js_join_append:
  "xs \<noteq> [] \<Longrightarrow> ys \<noteq> [] \<Longrightarrow> js_join sep (xs @ ys) = js_join sep xs @ sep @ js_join sep ys"
proof (induction xs)
  case Nil
  then show ?case by simp
next
  case (Cons a xs)
  show ?case
  proof (cases "xs = []")
    case True
    with Cons.prems show ?thesis by (simp add: js_join_Cons)
  next
    case False
    with Cons show ?thesis by (simp add: js_join_Cons)
  qed
qed

lemma js_join_nonempty: "ws \<noteq> [] \<Longrightarrow> [] \<notin> set ws \<Longrightarrow> js_join sep ws \<noteq> []"
  by (cases ws; cases "tl ws") auto

text \<open>Joining the pieces of a split with the separator gives the string back.\<close>

lemma js_join_split: "js_join [sep] (js_split sep s) = s"
proof (induction s)
  case Nil
  show ?case by simp
next
  case (Cons c s)
  then show ?case
    using js_split_not_Nil[of sep s]
    by (cases "js_split sep s") (auto simp: js_join_Cons js_join_Cons_Cons simp del: js_join.simps)
qed

lemma js_join_concat:
  "[] \<notin> set gs \<Longrightarrow> js_join sep (map (js_join sep) gs) = js_join sep (concat gs)"
proof (induction gs)
  case Nil
  show ?case by simp
next
  case (Cons g gs)
  show ?case
  proof (cases "gs = []")
    case True
    then show ?thesis by simp
  next
    case False
    with Cons.prems have "concat gs \<noteq> []" and "g \<noteq> []" by (cases gs; auto)+
    with Cons False show ?thesis by (simp add: js_join_Cons js_join_append)
  qed
qed

lemma js_split_spaces: "js_split CHR '' '' (replicate n CHR '' '') = replicate (Suc n) []"
  by (induction n) auto

lemma js_split_word: "CHR '' '' \<notin> set w \<Longrightarrow> js_split CHR '' '' w = [w]"
  by (induction w) auto

section \<open>The text layout\<close>

lemma wrap_step_cases:
  "wrap_step m x W lh word (line, y, out) =
     (if line = [] then (word, y, out)
      else if W < m (line @ '' '' @ word) then (word, y + lh, out @ [FillText line x y])
      else (line @ '' '' @ word, y, out))"
  by (simp add: wrap_step_def Let_def)

lemma concat_greedy_groups: "concat (greedy_groups m W cur ws) = cur @ ws"
  by (induction ws arbitrary: cur) auto

lemma greedy_groups_nonempty: "[] \<notin> set (greedy_groups m W cur ws)"
  by (induction ws arbitrary: cur) auto

lemma advance_swap: "((\<lambda>v. v + lh) ^^ n) (y + lh) = ((\<lambda>v. v + lh) ^^ n) y + (lh::real)"
  by (induction n) auto

lemma line_texts_place_lines: "line_texts (place_lines x y lh ls) = ls"
  by (induction ls arbitrary: y) auto

text \<open>
  The loop invariant: while every word is non-empty, the current line is the current
  group joined by single spaces, and what the loop and the final flush add to the trace
  is the placement of the greedy groups of the words still to come.
\<close>

lemma wrap_fold:
  "[] \<notin> set ws \<Longrightarrow> [] \<notin> set cur \<Longrightarrow>
   (case fold (wrap_step m x W lh) ws (js_join '' '' cur, y, out) of
      (line, drawY, out') \<Rightarrow>
        if line \<noteq> [] then (out' @ [FillText line x drawY], drawY + lh) else (out', drawY))
   = (out @ place_lines x y lh (map (js_join '' '') (greedy_groups m W cur ws)),
      ((\<lambda>v. v + lh) ^^ length (greedy_groups m W cur ws)) y)"
proof (induction ws arbitrary: cur y out)
  case Nil
  then show ?case by (auto simp: js_join_nonempty)
next
  case (Cons w ws)
  show ?case
  proof (cases "cur = []")
    case True
    have "fold (wrap_step m x W lh) (w # ws) (js_join '' '' cur, y, out) =
          fold (wrap_step m x W lh) ws (js_join '' '' [w], y, out)"
      using True by (simp add: wrap_step_cases)
    moreover have "greedy_groups m W cur (w # ws) = greedy_groups m W [w] ws"
      using True by simp
    ultimately show ?thesis using Cons.IH[of "[w]" y out] Cons.prems by simp
  next
    case False
    then have ne: "js_join '' '' cur \<noteq> []" using Cons.prems by (simp add: js_join_nonempty)
    have snoc: "js_join '' '' (cur @ [w]) = js_join '' '' cur @ '' '' @ w"
      using False by (simp add: js_join_append)
    show ?thesis
    proof (cases "m (js_join '' '' (cur @ [w])) > W")
      case True
      have "fold (wrap_step m x W lh) (w # ws) (js_join '' '' cur, y, out) =
            fold (wrap_step m x W lh) ws
              (js_join '' '' [w], y + lh, out @ [FillText (js_join '' '' cur) x y])"
        using True ne snoc by (simp add: wrap_step_cases)
      moreover have "greedy_groups m W cur (w # ws) = cur # greedy_groups m W [w] ws"
        using True False by simp
      ultimately show ?thesis
        using Cons.IH[of "[w]" "y + lh" "out @ [FillText (js_join '' '' cur) x y]"] Cons.prems
        by (simp add: advance_swap)
    next
      case unwrapped: False
      have "fold (wrap_step m x W lh) (w # ws) (js_join '' '' cur, y, out) =
            fold (wrap_step m x W lh) ws (js_join '' '' (cur @ [w]), y, out)"
        using unwrapped ne snoc by (simp add: wrap_step_cases)
      moreover have "greedy_groups m W cur (w # ws) = greedy_groups m W (cur @ [w]) ws"
        using unwrapped by simp
      ultimately show ?thesis
        using Cons.IH[of "cur @ [w]" y out] Cons.prems by simp
    qed
  qed
qed

text \<open>
  \<^verbatim>\<open>wrapText\<close> on a text whose words are all non-empty: the lines are the greedy
  groups, each drawn one line height below the one before, and the cursor has advanced
  once per line.
\<close>

lemma wrapText_greedy:
  assumes "[] \<notin> set (js_split CHR '' '' input)"
  shows "wrapText m input x y W lh =
     (place_lines x y lh (map (js_join '' '') (greedy_groups m W [] (js_split CHR '' '' input))),
      ((\<lambda>v. v + lh) ^^ length (greedy_groups m W [] (js_split CHR '' '' input))) y)"
  using wrap_fold[where ws = "js_split CHR '' '' input" and cur = "[]" and out = "[]"] assms
  by (simp add: wrapText_def)

lemma wrap_fold_spaces:
  "fold (wrap_step m x W lh) (replicate k []) ([], y, out) = ([], y, out)"
  by (induction k) (auto simp: wrap_step_cases)

text \<open>
  C1, as the code has it. \<^verbatim>\<open>wrapText\<close> splits at every single space, so a text
  with a leading, a trailing or a doubled space has empty words, and the loop drops an
  empty word that would start a line. For every text whose words are all non-empty (a
  non-empty text with no leading, trailing or doubled space), every measurement function
  and every maximal width: the texts of the lines drawn are the greedy groups of the
  words, each joined by single spaces, so there are as many lines as groups, and joining
  the lines by single spaces gives the text back.
\<close>

theorem wrapText_greedy_lines:
  assumes "[] \<notin> set (js_split CHR '' '' input)"
  shows "line_texts (fst (wrapText m input x y W lh))
           = map (js_join '' '') (greedy_groups m W [] (js_split CHR '' '' input))
         \<and> length (line_texts (fst (wrapText m input x y W lh)))
           = length (greedy_groups m W [] (js_split CHR '' '' input))
         \<and> js_join '' '' (line_texts (fst (wrapText m input x y W lh))) = input"
proof -
  let ?gs = "greedy_groups m W [] (js_split CHR '' '' input)"
  have "js_join '' '' (map (js_join '' '') ?gs) = js_join '' '' (concat ?gs)"
    by (rule js_join_concat) (rule greedy_groups_nonempty)
  also have "\<dots> = input"
    using js_join_split[of "CHR '' ''" input] by (simp add: concat_greedy_groups)
  finally show ?thesis
    by (simp add: wrapText_greedy[OF assms] line_texts_place_lines)
qed

text \<open>
  The example of the specification: three one-letter words, three units a character and
  a maximal width of ten give the lines \<open>A B\<close> and \<open>C\<close>.
\<close>

theorem wrapText_greedy_lines_witness:
  "[] \<notin> set (js_split CHR '' '' ''A B C'')
   \<and> line_texts (fst (wrapText (\<lambda>s. 3 * real (length s)) ''A B C'' 0 0 10 5)) = [''A B'', ''C'']
   \<and> length (line_texts (fst (wrapText (\<lambda>s. 3 * real (length s)) ''A B C'' 0 0 10 5)))
       = length (greedy_groups (\<lambda>s. 3 * real (length s)) 10 [] (js_split CHR '' '' ''A B C''))
   \<and> js_join '' '' (line_texts (fst (wrapText (\<lambda>s. 3 * real (length s)) ''A B C'' 0 0 10 5)))
       = ''A B C''"
proof -
  have h: "[] \<notin> set (js_split CHR '' '' ''A B C'')" by simp
  show ?thesis
    using h wrapText_greedy_lines[OF h, where m = "\<lambda>s. 3 * real (length s)" and x = 0 and y = 0
        and W = 10 and lh = 5]
    by simp
qed

text \<open>
  C1 as stated fails on a doubled space at a wrap: of the three words of \<open>aa  bb\<close> the
  empty one is lost, and the two lines drawn join to \<open>aa bb\<close>.
\<close>

theorem wrapText_double_space_counterexample:
  "line_texts (fst (wrapText (\<lambda>s. 3 * real (length s)) ''aa  bb'' 0 0 7 5)) = [''aa'', ''bb'']
   \<and> js_join '' '' (line_texts (fst (wrapText (\<lambda>s. 3 * real (length s)) ''aa  bb'' 0 0 7 5)))
       \<noteq> ''aa  bb''"
  by (simp add: wrapText_def wrap_step_cases)

text \<open>
  C7. For the empty text \<^verbatim>\<open>wrapText\<close> draws no line and returns the start position
  unchanged, whatever the measurement and the maximal width.
\<close>

theorem wrapText_empty: "wrapText m [] x y W lh = ([], y)"
  by (simp add: wrapText_def wrap_step_cases)

text \<open>
  A text that is one word (not empty, no space in it) is drawn whole on one line at the
  start position, however wide it measures; the returned position is one line height
  below the start.
\<close>

lemma wrapText_single_word:
  "w \<noteq> [] \<Longrightarrow> CHR '' '' \<notin> set w \<Longrightarrow> wrapText m w x y W lh = ([FillText w x y], y + lh)"
  by (simp add: wrapText_def js_split_word wrap_step_cases)

lemma wrapText_words:
  "wrapText m input x y W lh = wrap_words m (js_split CHR '' '' input) x y W lh"
  by (simp add: wrapText_def wrap_words_def)

lemma wrap_fold_prefix:
  "fold (wrap_step m x W lh) ws (line, y, pre @ out) =
     (case fold (wrap_step m x W lh) ws (line, y, out) of (l, d, calls) \<Rightarrow> (l, d, pre @ calls))"
proof (induction ws arbitrary: line y out)
  case Nil
  show ?case by simp
next
  case (Cons word ws)
  show ?case
    using Cons.IH[of word y out] Cons.IH[of word "y + lh" "out @ [FillText line x y]"]
      Cons.IH[of "line @ '' '' @ word" y out]
    by (simp add: wrap_step_cases)
qed

lemma wrap_words_Nil: "wrap_words m [] x y W lh = ([], y)"
  by (simp add: wrap_words_def)

text \<open>A wide word takes over the line: what stood on the line is flushed first.\<close>

lemma wide_word_arrives:
  assumes "w \<noteq> []" and "W < m w" and "\<And>a b. m w \<le> m (a @ w @ b)"
  shows "wrap_step m x W lh w (fold (wrap_step m x W lh) pre ([], y, []))
           = (w, snd (wrap_words m pre x y W lh), fst (wrap_words m pre x y W lh))"
proof -
  obtain l d calls where f: "fold (wrap_step m x W lh) pre ([], y, []) = (l, d, calls)"
    by (cases "fold (wrap_step m x W lh) pre ([], y, [])") auto
  have "W < m (l @ '' '' @ w)"
    using assms(2) assms(3)[of "l @ '' ''" "[]"] by simp
  then show ?thesis
    by (simp add: f wrap_words_def wrap_step_cases)
qed

text \<open>A wide word leaves the line alone: it is flushed before the next word, or at the end.\<close>

lemma wide_word_leaves:
  assumes "w \<noteq> []" and "W < m w" and "\<And>a b. m w \<le> m (a @ w @ b)"
  shows "(case fold (wrap_step m x W lh) post (w, d, calls) of
            (line, drawY, out) \<Rightarrow>
              if line \<noteq> [] then (out @ [FillText line x drawY], drawY + lh) else (out, drawY))
         = (calls @ FillText w x d # fst (wrap_words m post x (d + lh) W lh),
            snd (wrap_words m post x (d + lh) W lh))"
proof (cases post)
  case Nil
  with assms(1) show ?thesis by (simp add: wrap_words_Nil)
next
  case (Cons v vs)
  have wide: "W < m (w @ '' '' @ v)"
    using assms(2) assms(3)[of "[]" "'' '' @ v"] by simp
  have "fold (wrap_step m x W lh) post (w, d, calls)
          = fold (wrap_step m x W lh) vs (v, d + lh, (calls @ [FillText w x d]) @ [])"
    using assms(1) wide by (simp add: Cons wrap_step_cases)
  also have "\<dots> = (case fold (wrap_step m x W lh) vs (v, d + lh, []) of
                      (l, d', out) \<Rightarrow> (l, d', (calls @ [FillText w x d]) @ out))"
    by (rule wrap_fold_prefix)
  finally have step: "fold (wrap_step m x W lh) post (w, d, calls)
          = (case fold (wrap_step m x W lh) vs (v, d + lh, []) of
               (l, d', out) \<Rightarrow> (l, d', (calls @ [FillText w x d]) @ out))" .
  have init: "fold (wrap_step m x W lh) post ([], d + lh, [])
                = fold (wrap_step m x W lh) vs (v, d + lh, [])"
    by (simp add: Cons wrap_step_cases)
  show ?thesis
    unfolding step wrap_words_def init
    by (cases "fold (wrap_step m x W lh) vs (v, d + lh, [])") simp
qed

text \<open>
  C8. Take any text and any of its words that is not empty and measures more than the
  maximal width, under a measurement that gives no text containing the word less than the
  word itself. The layout of the text is the layout of the words before it, then the word
  alone and whole on a line of its own at the cursor these leave, then the layout of the
  words after it from one line height below. So the word is the text of one of the lines
  drawn, and when it is the last word the returned position is one line height below its
  line.
\<close>

theorem wrapText_wide_word:
  assumes "js_split CHR '' '' input = pre @ w # post"
    and "w \<noteq> []" and "W < m w" and "\<And>a b. m w \<le> m (a @ w @ b)"
  shows "wrapText m input x y W lh =
           (fst (wrap_words m pre x y W lh)
              @ FillText w x (snd (wrap_words m pre x y W lh))
              # fst (wrap_words m post x (snd (wrap_words m pre x y W lh) + lh) W lh),
            snd (wrap_words m post x (snd (wrap_words m pre x y W lh) + lh) W lh))
         \<and> w \<in> set (line_texts (fst (wrapText m input x y W lh)))
         \<and> (post = [] \<longrightarrow> snd (wrapText m input x y W lh) = snd (wrap_words m pre x y W lh) + lh)"
proof -
  have eq: "wrapText m input x y W lh =
           (fst (wrap_words m pre x y W lh)
              @ FillText w x (snd (wrap_words m pre x y W lh))
              # fst (wrap_words m post x (snd (wrap_words m pre x y W lh) + lh) W lh),
            snd (wrap_words m post x (snd (wrap_words m pre x y W lh) + lh) W lh))"
    using wide_word_leaves[OF assms(2,3,4), of x lh post "snd (wrap_words m pre x y W lh)"
        "fst (wrap_words m pre x y W lh)"]
    by (simp add: wrapText_def assms(1) wide_word_arrives[OF assms(2,3,4)])
  have mem: "w \<in> set (line_texts (a @ FillText w x d # b))" for a b d
    by (induction a rule: line_texts.induct) simp_all
  show ?thesis
    unfolding eq using mem by (simp add: wrap_words_Nil)
qed

text \<open>
  A thirteen-letter word between two short ones, ten units a character, maximal width
  100: three lines, the wide word alone on the second, and the cursor three line heights
  below the start.
\<close>

theorem wrapText_wide_word_witness:
  "js_split CHR '' '' ''a Extraordinary b'' = [''a''] @ ''Extraordinary'' # [''b'']
   \<and> ''Extraordinary'' \<noteq> []
   \<and> (100::real) < 10 * real (length ''Extraordinary'')
   \<and> (\<forall>a b. 10 * real (length ''Extraordinary'') \<le> 10 * real (length (a @ ''Extraordinary'' @ b)))
   \<and> wrapText (\<lambda>s. 10 * real (length s)) ''a Extraordinary b'' 140 200 100 84
       = ([FillText ''a'' 140 200, FillText ''Extraordinary'' 140 284, FillText ''b'' 140 368], 452)
   \<and> ''Extraordinary'' \<in> set (line_texts (fst
         (wrapText (\<lambda>s. 10 * real (length s)) ''a Extraordinary b'' 140 200 100 84)))"
proof -
  have h1: "js_split CHR '' '' ''a Extraordinary b'' = [''a''] @ ''Extraordinary'' # [''b'']"
    by simp
  have h2: "''Extraordinary'' \<noteq> []" by simp
  have h3: "(100::real) < 10 * real (length ''Extraordinary'')" by simp
  have h4: "10 * real (length ''Extraordinary'') \<le> 10 * real (length (a @ ''Extraordinary'' @ b))"
    for a b :: string by simp
  have r: "wrapText (\<lambda>s. 10 * real (length s)) ''a Extraordinary b'' 140 200 100 84
       = ([FillText ''a'' 140 200, FillText ''Extraordinary'' 140 284, FillText ''b'' 140 368], 452)"
    by (simp add: wrapText_def wrap_step_cases)
  have t: "''Extraordinary'' \<in> set (line_texts (fst
         (wrapText (\<lambda>s. 10 * real (length s)) ''a Extraordinary b'' 140 200 100 84)))"
    using wrapText_wide_word[where m = "\<lambda>s. 10 * real (length s)" and x = 140 and y = 200
        and lh = 84, OF h1 h2 h3 h4]
    by (rule conjunct1[OF conjunct2])
  show ?thesis
    using h1 h2 h3 h4 r t by blast
qed


text \<open>
  C10. For a text of spaces only (one or more) \<^verbatim>\<open>wrapText\<close> draws no line and
  returns the start position unchanged, as for the empty text.
\<close>

theorem wrapText_spaces: "wrapText m (replicate (Suc n) CHR '' '') x y W lh = ([], y)"
  by (simp only: wrapText_def js_split_spaces wrap_fold_spaces) simp

section \<open>The scene catalog\<close>

text \<open>
  C9. In every preset of the catalog the gradient stop positions are non-decreasing, the
  first stop is at 0 and the last at 1.
\<close>

theorem scene_stops_ordered:
  "sorted (map stop_position (gradientStops (sceneBackgrounds k)))
   \<and> stop_position (hd (gradientStops (sceneBackgrounds k))) = 0
   \<and> stop_position (last (gradientStops (sceneBackgrounds k))) = 1"
  by (cases k) simp_all

section \<open>The filter chain\<close>

text \<open>
  C2. For all parameter values the filter text of the preview and the one the export
  assigns to the context are equal; it lists brightness, contrast, saturate and blur in
  this order, separated by single spaces; and the export sets it among its calls.
\<close>

theorem filter_chain_preview_export:
  "filterValue env s = exportFilter env s
   \<and> filterValue env s = js_join '' ''
        [''brightness('' @ numberToString env (brightness s) @ '')'',
         ''contrast('' @ numberToString env (contrast s) @ '')'',
         ''saturate('' @ numberToString env (saturation s) @ '')'',
         ''blur('' @ numberToString env (blur s) @ ''px)'']
   \<and> SetFilter (filterValue env s) \<in> set (compose env s baseImage)"
  by (simp add: filterValue_def exportFilter_def compose_def drawProduct_def split_beta)

section \<open>The placement of the image\<close>

lemma scale_le: "scale img \<le> 1.2"
  by (cases "width img = 0"; cases "height img = 0") (auto simp: scale_def js_divide_def min_def)

lemma drawWidth_le: "drawWidth img \<le> availableImageWidth"
proof (cases "width img = 0")
  case True
  then show ?thesis
    by (simp add: drawWidth_def availableImageWidth_def downloadWidth_def textColumnWidth_def
          padding_def)
next
  case False
  then have "scale img \<le> availableImageWidth / real (width img)"
    by (cases "height img = 0") (simp_all add: scale_def js_divide_def)
  then have "real (width img) * scale img
               \<le> real (width img) * (availableImageWidth / real (width img))"
    by (rule mult_left_mono) simp
  with False show ?thesis by (simp add: drawWidth_def)
qed

lemma drawHeight_le: "drawHeight img \<le> availableImageHeight"
proof (cases "height img = 0")
  case True
  then show ?thesis
    by (simp add: drawHeight_def availableImageHeight_def downloadHeight_def padding_def)
next
  case False
  then have "scale img \<le> availableImageHeight / real (height img)"
    by (cases "width img = 0") (simp_all add: scale_def js_divide_def)
  then have "real (height img) * scale img
               \<le> real (height img) * (availableImageHeight / real (height img))"
    by (rule mult_left_mono) simp
  with False show ?thesis by (simp add: drawHeight_def)
qed

text \<open>
  C4. For every image: when both sides are positive the scale is the least of the two
  quotients and the cap 1.2; in every case the scale is at most the cap; the drawn width
  is the natural width times the scale and at most the available width; the image ends
  at the right edge of the available region and starts inside it; and it has the same
  distance to the top and to the bottom of the region.
\<close>

theorem image_fit:
  "(0 < width img \<and> 0 < height img \<longrightarrow>
      scale img = min (min (availableImageWidth / real (width img))
                           (availableImageHeight / real (height img))) 1.2)
   \<and> scale img \<le> 1.2
   \<and> drawWidth img = real (width img) * scale img
   \<and> drawWidth img \<le> availableImageWidth
   \<and> imageX img + drawWidth img = downloadWidth - padding
   \<and> downloadWidth - padding - availableImageWidth \<le> imageX img
   \<and> imageY img - padding = (padding + availableImageHeight) - (imageY img + drawHeight img)
   \<and> padding \<le> imageY img"
  using scale_le[of img] drawWidth_le[of img] drawHeight_le[of img]
  by (auto simp: scale_def js_divide_def imageX_def imageY_def drawWidth_def field_simps)

text \<open>
  A 2000 by 1000 image in the 712 by 920 region: the scale is 712/2000, the image is drawn
  712 by 356 with its left edge at 748 and its top at 422.
\<close>

theorem image_fit_witness:
  "0 < width \<lparr>width = 2000, height = 1000\<rparr> \<and> 0 < height \<lparr>width = 2000, height = 1000\<rparr>
   \<and> scale \<lparr>width = 2000, height = 1000\<rparr> = 0.356
   \<and> scale \<lparr>width = 2000, height = 1000\<rparr> \<le> 1.2
   \<and> drawWidth \<lparr>width = 2000, height = 1000\<rparr> = 712
   \<and> drawWidth \<lparr>width = 2000, height = 1000\<rparr> \<le> availableImageWidth
   \<and> imageX \<lparr>width = 2000, height = 1000\<rparr> = 748
   \<and> imageY \<lparr>width = 2000, height = 1000\<rparr> = 422"
  using image_fit[of "\<lparr>width = 2000, height = 1000\<rparr>"]
  by (simp add: scale_def js_divide_def imageX_def imageY_def drawWidth_def drawHeight_def
        availableImageWidth_def availableImageHeight_def downloadWidth_def downloadHeight_def
        textColumnWidth_def padding_def)

section \<open>The export handler\<close>

text \<open>
  C5. With no image loaded \<^verbatim>\<open>handleDownload\<close> only sets the error message
  \<open>Upload an image first.\<close>: the rest of the state is as it was, no canvas is created
  and nothing is drawn.
\<close>

theorem handleDownload_no_image:
  "imageSrc s = None \<or> imageSrc s = Some [] \<Longrightarrow>
   handleDownload env s = (s\<lparr>downloadError := Some ''Upload an image first.''\<rparr>, [])"
  by (auto simp: handleDownload_def)

theorem handleDownload_no_image_witness:
  "(imageSrc initial_state = None \<or> imageSrc initial_state = Some [])
   \<and> handleDownload (example_browser \<lparr>width = 800, height = 600\<rparr>) initial_state
       = (initial_state\<lparr>downloadError := Some ''Upload an image first.''\<rparr>, [])"
proof -
  have h: "imageSrc initial_state = None \<or> imageSrc initial_state = Some []"
    by (simp add: initial_state_def)
  show ?thesis
    using h handleDownload_no_image[OF h, of "example_browser \<lparr>width = 800, height = 600\<rparr>"]
    by simp
qed

section \<open>The backdrop in the preview and in the export\<close>

lemma rect_fills_overlays:
  "rect_fills cur (concat (map (\<lambda>ov. [SetFillStyle (g ov), FillRect a b c d]) ovs)) = map g ovs"
  by (induction ovs arbitrary: cur) auto

lemma exportFills_scene:
  "backgroundMode s = Scene \<Longrightarrow>
   exportFills s =
     LinearGradient 0 0 downloadWidth downloadHeight
       (map (\<lambda>stop. (stop_position stop, stop_color stop)) (gradientStops (sceneBackgrounds (sceneKey s))))
     # map (\<lambda>ov. RadialGradient
                (downloadWidth * ov_x ov) (downloadHeight * ov_y ov) 0
                (downloadWidth * ov_x ov) (downloadHeight * ov_y ov)
                (max downloadWidth downloadHeight * ov_radius ov)
                [(0, ov_color ov), (1, ''rgba(255,255,255,0)'')])
         (case overlays (sceneBackgrounds (sceneKey s)) of None \<Rightarrow> [] | Some ovs \<Rightarrow> ovs)"
  by (simp add: exportFills_def drawBackdrop_def Let_def rect_fills_overlays)

lemma exportFills_solid:
  "backgroundMode s = Solid \<Longrightarrow> exportFills s = [Color (solidColor s)]"
  by (simp add: exportFills_def drawBackdrop_def)

lemma exportFills_gradient:
  "backgroundMode s = Gradient \<Longrightarrow>
   exportFills s = [LinearGradient 0 0 downloadWidth downloadHeight [(0, gradientStart s), (1, gradientEnd s)]]"
  by (simp add: exportFills_def drawBackdrop_def)

lemma css_text_overlay_layer:
  "css_text (overlay_layer ov) =
     ''radial-gradient(circle at '' @ percent (ov_x ov) @ '' '' @ percent (ov_y ov)
       @ '', '' @ ov_color ov @ '' 0%, rgba(255, 255, 255, 0) ''
       @ show_int (Math_round (ov_radius ov * 100)) @ ''%)''"
  by (simp add: overlay_layer_def percent_def show_int_def)

lemma previewBackground_layers:
  "previewBackground s = js_join '','' (map css_text (previewLayers s))"
proof (cases "backgroundMode s")
  case Gradient
  then show ?thesis by (simp add: previewBackground_def previewLayers_def show_int_def)
next
  case Solid
  then show ?thesis by (simp add: previewBackground_def previewLayers_def)
next
  case Scene
  have g: "css_text (CssLinearGradient 135
                 (map (\<lambda>stop. (stop_color stop, Some (Math_round (stop_position stop * 100))))
                    (gradientStops sc))) = scene_gradient sc" for sc
    by (simp add: scene_gradient_def show_int_def comp_def)
  have o: "map (css_text \<circ> overlay_layer) (case overlays sc of None \<Rightarrow> [] | Some ovs \<Rightarrow> ovs)
           = scene_overlays sc" for sc
    by (simp add: scene_overlays_def css_text_overlay_layer comp_def split: option.splits)
  from Scene show ?thesis
    by (simp add: previewBackground_def previewLayers_def Let_def g o del: css_text.simps)
qed

lemma backgroundStyle_scene:
  "backgroundMode s = Scene \<Longrightarrow> backgroundStyle s = BackgroundImage (previewBackground s)"
  by (simp add: backgroundStyle_def previewBackground_def Let_def)

text \<open>
  C3, as the code has it. For every state: the text of the preview's background is its
  list of layers printed; bottom up, the preview and the export have as many layers; the
  bottom layer has the same colours in the same order in both (the solid colour, the two
  gradient colours, or the stops of the scene in catalog order); the layers above it are
  overlays in both, and they agree one by one, the preview's read from the top down and
  the export's in the order they are painted, in the colour at the centre, the centre and
  the radius; the preview gives its gradient the CSS angle 130deg in gradient mode and
  135deg in scene mode, while the export draws the gradient of both modes along the one
  line from the top left to the bottom right corner of the canvas.
\<close>

theorem preview_export_backdrop:
  "previewBackground s = js_join '','' (map css_text (previewLayers s))
   \<and> length (css_paint_order (previewLayers s)) = length (exportFills s)
   \<and> css_colors (hd (css_paint_order (previewLayers s))) = fill_colors (hd (exportFills s))
   \<and> set (map (hd \<circ> css_colors) (tl (css_paint_order (previewLayers s))))
       = set (map (hd \<circ> fill_colors) (tl (exportFills s)))
   \<and> css_angle (hd (css_paint_order (previewLayers s))) =
       (case backgroundMode s of Gradient \<Rightarrow> Some 130 | Solid \<Rightarrow> None | Scene \<Rightarrow> Some 135)
   \<and> gradient_line (hd (exportFills s)) =
       (case backgroundMode s of Solid \<Rightarrow> None | _ \<Rightarrow> Some (0, 0, downloadWidth, downloadHeight))
   \<and> map css_overlay (rev (tl (css_paint_order (previewLayers s))))
       = map fill_overlay (tl (exportFills s))
   \<and> None \<notin> set (map fill_overlay (tl (exportFills s)))"
proof (cases "backgroundMode s")
  case Gradient
  then show ?thesis
    by (simp add: exportFills_gradient previewBackground_layers css_paint_order_def)
       (simp add: previewLayers_def)
next
  case Solid
  then show ?thesis
    by (simp add: exportFills_solid previewBackground_layers css_paint_order_def)
       (simp add: previewLayers_def)
next
  case Scene
  then show ?thesis
    by (simp add: exportFills_scene previewBackground_layers css_paint_order_def)
       (auto simp: previewLayers_def Let_def comp_def overlay_layer_def image_image
          downloadWidth_def downloadHeight_def rev_map)
qed

theorem preview_export_backdrop_witness:
  "previewBackground (initial_state\<lparr>backgroundMode := Scene, sceneKey := neon\<rparr>)
     = ''radial-gradient(circle at 75% 25%, rgba(16, 185, 129, 0.32) 0%, rgba(255, 255, 255, 0) 50%),radial-gradient(circle at 20% 80%, rgba(59, 130, 246, 0.25) 0%, rgba(255, 255, 255, 0) 65%),linear-gradient(135deg, #0f172a 0%, #1e293b 45%, #4c1d95 100%)''
   \<and> css_colors (hd (css_paint_order (previewLayers (initial_state\<lparr>backgroundMode := Scene, sceneKey := neon\<rparr>))))
       = [''#0f172a'', ''#1e293b'', ''#4c1d95'']
   \<and> fill_colors (hd (exportFills (initial_state\<lparr>backgroundMode := Scene, sceneKey := neon\<rparr>)))
       = [''#0f172a'', ''#1e293b'', ''#4c1d95'']
   \<and> map css_overlay (rev (tl (css_paint_order
         (previewLayers (initial_state\<lparr>backgroundMode := Scene, sceneKey := neon\<rparr>)))))
       = [Some (75, 25, ''rgba(16, 185, 129, 0.32)'', 50), Some (20, 80, ''rgba(59, 130, 246, 0.25)'', 65)]
   \<and> map fill_overlay (tl (exportFills (initial_state\<lparr>backgroundMode := Scene, sceneKey := neon\<rparr>)))
       = [Some (75, 25, ''rgba(16, 185, 129, 0.32)'', 50), Some (20, 80, ''rgba(59, 130, 246, 0.25)'', 65)]"
  using preview_export_backdrop[of "initial_state\<lparr>backgroundMode := Scene, sceneKey := neon\<rparr>"]
  by (simp add: initial_state_def previewLayers_def css_paint_order_def overlay_layer_def
        Math_round_def show_int_def)

text \<open>
  C3 as stated fails. The export draws the two-colour gradient and the gradient of the
  scene along the same line, while the preview gives them two different angles, so the
  angle of the preview is not that of the export in both. And in the scene with two
  overlays the preview stacks, bottom up, the second overlay below the first, while the
  export paints the first overlay before the second.
\<close>

theorem preview_backdrop_counterexample:
  "css_angle (hd (css_paint_order (previewLayers initial_state))) = Some 130
   \<and> css_angle (hd (css_paint_order
         (previewLayers (initial_state\<lparr>backgroundMode := Scene, sceneKey := neon\<rparr>)))) = Some 135
   \<and> gradient_line (hd (exportFills initial_state)) = Some (0, 0, 1600, 1200)
   \<and> gradient_line (hd (exportFills (initial_state\<lparr>backgroundMode := Scene, sceneKey := neon\<rparr>)))
       = Some (0, 0, 1600, 1200)
   \<and> map (hd \<circ> css_colors)
         (css_paint_order (previewLayers (initial_state\<lparr>backgroundMode := Scene, sceneKey := neon\<rparr>)))
       = [''#0f172a'', ''rgba(59, 130, 246, 0.25)'', ''rgba(16, 185, 129, 0.32)'']
   \<and> map (hd \<circ> fill_colors) (exportFills (initial_state\<lparr>backgroundMode := Scene, sceneKey := neon\<rparr>))
       = [''#0f172a'', ''rgba(16, 185, 129, 0.32)'', ''rgba(59, 130, 246, 0.25)'']"
  by (simp add: exportFills_scene exportFills_gradient initial_state_def previewLayers_def
        css_paint_order_def overlay_layer_def downloadWidth_def downloadHeight_def)


section \<open>The export of an image with a zero side\<close>

lemma compose_draws_image:
  "DrawImage img (imageX img) (imageY img) (drawWidth img) (drawHeight img) \<in> set (compose env s img)"
  by (simp add: compose_def drawProduct_def split_beta)

lemma wrap_fold_no_image:
  "DrawImage i a b w h \<notin> set out \<Longrightarrow>
   DrawImage i a b w h \<notin> set (snd (snd (fold (wrap_step m x W lh) ws (line, y, out))))"
proof (induction ws arbitrary: line y out)
  case Nil
  then show ?case by simp
next
  case (Cons word ws)
  show ?case
    using Cons.IH[of out word y] Cons.IH[of "out @ [FillText line x y]" word "y + lh"]
      Cons.IH[of out "line @ '' '' @ word" y] Cons.prems
    by (simp add: wrap_step_cases)
qed

lemma wrapText_no_image: "DrawImage i a b w h \<notin> set (fst (wrapText m t x y W lh))"
proof -
  obtain line drawY out where f:
    "fold (wrap_step m x W lh) (js_split CHR '' '' t) ([], y, []) = (line, drawY, out)"
    by (cases "fold (wrap_step m x W lh) (js_split CHR '' '' t) ([], y, [])") auto
  have "DrawImage i a b w h \<notin> set out"
    using wrap_fold_no_image[of i a b w h "[]" m x W lh "js_split CHR '' '' t" "[]" y] f by simp
  then show ?thesis by (simp add: wrapText_def f)
qed

lemma drawRoundedRect_no_image: "DrawImage i a b w h \<notin> set (drawRoundedRect x y ww hh r)"
  by (simp add: drawRoundedRect_def)

lemma drawBackdrop_no_image: "DrawImage i a b w h \<notin> set (drawBackdrop s)"
  by (auto simp: drawBackdrop_def Let_def)

lemma drawCard_no_image: "DrawImage i a b w h \<notin> set drawCard"
  by (simp add: drawCard_def drawRoundedRect_no_image)

lemma drawBadge_no_image: "DrawImage i a b w h \<notin> set (fst (drawBadge env s y))"
  by (simp add: drawBadge_def Let_def drawRoundedRect_no_image)

lemma drawTagline_no_image: "DrawImage i a b w h \<notin> set (fst (drawTagline env s y))"
  by (simp add: drawTagline_def split_beta wrapText_no_image)

lemma drawDescription_no_image: "DrawImage i a b w h \<notin> set (fst (drawDescription env s y))"
  by (simp add: drawDescription_def split_beta wrapText_no_image)

lemma drawCta_no_image: "DrawImage i a b w h \<notin> set (drawCta env s y)"
  by (simp add: drawCta_def Let_def drawRoundedRect_no_image)

lemma compose_only_image:
  "DrawImage i a b w h \<in> set (compose env s img) \<Longrightarrow>
   i = img \<and> a = imageX img \<and> b = imageY img \<and> w = drawWidth img \<and> h = drawHeight img"
  by (simp add: compose_def split_beta drawBackdrop_no_image drawCard_no_image drawBadge_no_image
        drawTagline_no_image drawDescription_no_image drawCta_no_image)
     (auto simp: drawProduct_def)

text \<open>
  C6, as the code has it. For a loaded image with a zero side, a canvas context and a
  blob: the placement has zero width or zero height; the export completes with no error
  message and offers the file for download; the handler has no branch that leaves the
  image out, it makes its \<^verbatim>\<open>drawImage\<close> call with this placement; and every
  \<^verbatim>\<open>drawImage\<close> call of the export has a destination of no area.
\<close>

theorem handleDownload_zero_image:
  assumes "imageSrc s = Some src" and "src \<noteq> []" and "decodeImage env src = Some img"
    and "getContext env" and "toBlob env" and "width img = 0 \<or> height img = 0"
  shows "(drawWidth img = 0 \<or> drawHeight img = 0)
     \<and> downloadError (fst (handleDownload env s)) = None
     \<and> Download (if imageName s \<noteq> [] then imageName s else ''product-shot.png'')
          \<in> set (snd (handleDownload env s))
     \<and> Canvas (DrawImage img (imageX img) (imageY img) (drawWidth img) (drawHeight img))
          \<in> set (snd (handleDownload env s))
     \<and> (\<forall>i a b w h. Canvas (DrawImage i a b w h) \<in> set (snd (handleDownload env s))
          \<longrightarrow> w * h = 0)"
proof -
  have z: "drawWidth img = 0 \<or> drawHeight img = 0"
    using assms(6) by (auto simp: drawWidth_def drawHeight_def)
  have tr: "snd (handleDownload env s) =
     CreateCanvas downloadWidth downloadHeight # map Canvas (compose env s img)
       @ [ToBlob ''image/png'' 0.95,
          Download (if imageName s \<noteq> [] then imageName s else ''product-shot.png'')]"
    and ok: "downloadError (fst (handleDownload env s)) = None"
    using assms(1-5) by (simp_all add: handleDownload_def)
  have "w * h = 0" if "Canvas (DrawImage i a b w h) \<in> set (snd (handleDownload env s))" for i a b w h
  proof -
    from that have "DrawImage i a b w h \<in> set (compose env s img)"
      unfolding tr by auto
    then show ?thesis using compose_only_image z by fastforce
  qed
  moreover have "Canvas (DrawImage img (imageX img) (imageY img) (drawWidth img) (drawHeight img))
          \<in> set (snd (handleDownload env s))"
    unfolding tr using compose_draws_image by simp
  ultimately show ?thesis using z ok unfolding tr by simp
qed

theorem handleDownload_zero_image_witness:
  "imageSrc (initial_state\<lparr>imageSrc := Some ''blob:product''\<rparr>) = Some ''blob:product''
   \<and> ''blob:product'' \<noteq> []
   \<and> decodeImage (example_browser \<lparr>width = 0, height = 100\<rparr>) ''blob:product''
       = Some \<lparr>width = 0, height = 100\<rparr>
   \<and> getContext (example_browser \<lparr>width = 0, height = 100\<rparr>)
   \<and> toBlob (example_browser \<lparr>width = 0, height = 100\<rparr>)
   \<and> (width \<lparr>width = 0, height = 100\<rparr> = 0 \<or> height \<lparr>width = 0, height = 100\<rparr> = 0)
   \<and> drawWidth \<lparr>width = 0, height = 100\<rparr> = 0
   \<and> downloadError (fst (handleDownload (example_browser \<lparr>width = 0, height = 100\<rparr>)
         (initial_state\<lparr>imageSrc := Some ''blob:product''\<rparr>))) = None
   \<and> Canvas (DrawImage \<lparr>width = 0, height = 100\<rparr> (imageX \<lparr>width = 0, height = 100\<rparr>)
         (imageY \<lparr>width = 0, height = 100\<rparr>) (drawWidth \<lparr>width = 0, height = 100\<rparr>)
         (drawHeight \<lparr>width = 0, height = 100\<rparr>))
       \<in> set (snd (handleDownload (example_browser \<lparr>width = 0, height = 100\<rparr>)
                 (initial_state\<lparr>imageSrc := Some ''blob:product''\<rparr>)))"
proof -
  have h1: "imageSrc (initial_state\<lparr>imageSrc := Some ''blob:product''\<rparr>) = Some ''blob:product''"
    by simp
  have h2: "''blob:product'' \<noteq> []"
    by simp
  have h3: "decodeImage (example_browser \<lparr>width = 0, height = 100\<rparr>) ''blob:product''
              = Some \<lparr>width = 0, height = 100\<rparr>"
    by (simp add: example_browser_def)
  have h4: "getContext (example_browser \<lparr>width = 0, height = 100\<rparr>)"
    by (simp add: example_browser_def)
  have h5: "toBlob (example_browser \<lparr>width = 0, height = 100\<rparr>)"
    by (simp add: example_browser_def)
  have h6: "width \<lparr>width = 0, height = 100\<rparr> = 0 \<or> height \<lparr>width = 0, height = 100\<rparr> = 0"
    by simp
  have w: "drawWidth \<lparr>width = 0, height = 100\<rparr> = 0"
    by (simp add: drawWidth_def)
  from handleDownload_zero_image[OF h1 h2 h3 h4 h5 h6] h1 h2 h3 h4 h5 h6 w
  show ?thesis by blast
qed

text \<open>
  C6 as stated fails: for an image 0 wide and 100 high the export does not leave the
  image out, its trace holds the \<^verbatim>\<open>drawImage\<close> call, with a width of 0.
\<close>

theorem zero_image_still_drawn:
  "Canvas (DrawImage \<lparr>width = 0, height = 100\<rparr> 1460 540 0 120)
     \<in> set (snd (handleDownload (example_browser \<lparr>width = 0, height = 100\<rparr>)
                   (initial_state\<lparr>imageSrc := Some ''blob:product''\<rparr>)))"
proof -
  have "DrawImage \<lparr>width = 0, height = 100\<rparr> (imageX \<lparr>width = 0, height = 100\<rparr>)
          (imageY \<lparr>width = 0, height = 100\<rparr>) (drawWidth \<lparr>width = 0, height = 100\<rparr>)
          (drawHeight \<lparr>width = 0, height = 100\<rparr>)
        \<in> set (compose (example_browser \<lparr>width = 0, height = 100\<rparr>)
                 (initial_state\<lparr>imageSrc := Some ''blob:product''\<rparr>) \<lparr>width = 0, height = 100\<rparr>)"
    by (rule compose_draws_image)
  moreover have "imageX \<lparr>width = 0, height = 100\<rparr> = 1460" "imageY \<lparr>width = 0, height = 100\<rparr> = 540"
    "drawWidth \<lparr>width = 0, height = 100\<rparr> = 0" "drawHeight \<lparr>width = 0, height = 100\<rparr> = 120"
    by (simp_all add: imageX_def imageY_def drawWidth_def drawHeight_def scale_def js_divide_def
          availableImageHeight_def downloadWidth_def downloadHeight_def padding_def)
  ultimately show ?thesis
    by (simp add: handleDownload_def example_browser_def initial_state_def)
qed


end
